theory Spec2Isabelle
  imports Main
begin

section \<open>Storage: the tables of the migration and the statements the scanner issues\<close>

text \<open>
  The scanner talks to PostgreSQL through \<open>db.query(text, params)\<close>. The tables are kept as
  lists of rows in insertion order; the columns are those the scanner reads or writes
  (\<open>id SERIAL\<close>, \<open>created_at\<close> and \<open>confidence_score\<close> are never named by a statement of the
  scanner and are left out). Timestamps are milliseconds on one clock.
\<close>

record nation_row =
  n_id :: int
  n_nation_name :: string
  n_leader_name :: string
  n_alliance_id :: int
  n_last_active :: int
  n_updated_at :: int

record scan_row =
  sh_nation_id :: int
  sh_espionage_available :: bool
  sh_scanned_at :: int

record reset_row =
  rt_nation_id :: int
  rt_reset_time :: int
  rt_detected_at :: int

record error_row =
  el_error_type :: string
  el_error_message :: string

text \<open>A nation object as the provider's GraphQL answer carries it.\<close>

record api_nation =
  a_id :: int
  a_nation_name :: string
  a_leader_name :: string
  a_alliance_id :: int
  a_espionage_available :: bool
  a_last_active :: int

text \<open>The statements of \<open>scanner.js\<close>, with their parameters.\<close>

datatype query =
    SelectCandidates
  | SelectLastScan int
  | InsertScan int bool
  | UpsertReset int int int
  | UpdateNation int int
  | InsertError string string
  | UpsertNation int string string int int

datatype row = ScanRow bool int | CandRow int string

datatype error = DbError query | HttpFailure nat | NetworkFailure | GraphQLFailed | TypeError

datatype log_entry =
    Info string
  | Warn string
  | DatabaseQueryError query
  | FailedToProcessNation int error
  | ResetTimeDetected int int
  | FailedToRecordResetTime int error
  | ScanCycleFailed error
  | FailedToLogError error
  | FailedToFetchSpecific "int list" error
  | FailedToFetchBatch error
  | FailedToInitialize error
  | RateLimited int
  | BufferReached int
  | GraphQLErrors
  | Initialized nat
  | InitializationComplete nat
  | ScanCompleted int

section \<open>The rate limiter and the HTTP exchange\<close>

text \<open>
  JavaScript numbers that the rate limiter holds: \<open>null\<close> (the initial \<open>resetTime\<close>),
  \<open>NaN\<close> (what \<open>parseInt\<close> gives for a header that is absent) or an integer.
\<close>

datatype jsnum = Null | NaN | Num int

record rate_limiter =
  remaining :: jsnum
  resetTime :: jsnum
  limit :: jsnum

text \<open>
  Response headers: each is absent or carries an integer (the provider sends decimal
  integers; a header string is truthy whenever it is present and non-empty, also "0").
\<close>

record headers =
  x_ratelimit_remaining :: "int option"
  x_ratelimit_reset :: "int option"
  x_ratelimit_limit :: "int option"
  x_ratelimit_resetafter :: "int option"

datatype http_request = ReqPage nat "string option" | ReqByIds "int list"

datatype body =
    GqlErrors
  | PageBody "api_nation list" bool "string option"
  | IdsBody "api_nation list option"

datatype reply =
    Ok2xx headers body
  | HttpError nat headers
  | NoResponse

datatype event = EvQuery query | EvNet http_request reply | EvSleep int | EvWait

section \<open>The world: storage, clock, limiter, log and the trace of effects\<close>

record world =
  nations :: "nation_row list"
  scan_history :: "scan_row list"
  reset_times :: "reset_row list"
  error_logs :: "error_row list"
  clock :: int
  queries :: nat
  calls :: nat
  limiter :: rate_limiter
  logged :: "log_entry list"
  trace :: "event list"

text \<open>
  The environment decides what the code cannot: which statement fails for a reason of the
  server (by its index in the run), how long each statement takes beyond one millisecond,
  and what the provider answers to the n-th network attempt.
\<close>

record env =
  db_fails :: "nat \<Rightarrow> bool"
  db_delay :: "nat \<Rightarrow> nat"
  provider :: "nat \<Rightarrow> http_request \<Rightarrow> reply"

definition logger :: "log_entry \<Rightarrow> world \<Rightarrow> world" where
  "logger e w = w\<lparr>logged := logged w @ [e]\<rparr>"

subsection \<open>What each statement does\<close>

text \<open>\<open>ORDER BY scanned_at DESC LIMIT 1\<close> over the rows of one nation.\<close>

definition last_scan :: "int \<Rightarrow> scan_row list \<Rightarrow> row list" where
  "last_scan nid sh =
     map (\<lambda>r. ScanRow (sh_espionage_available r) (sh_scanned_at r))
       (take 1 (rev (sort_key sh_scanned_at (filter (\<lambda>r. sh_nation_id r = nid) sh))))"

definition seven_days :: int where
  "seven_days = 7 * 24 * 60 * 60 * 1000"

text \<open>
  The candidate query: nations with no row in \<open>reset_times\<close>, active within seven days,
  most recently active first, at most 5000.
\<close>

definition candidates :: "world \<Rightarrow> row list" where
  "candidates w =
     map (\<lambda>n. CandRow (n_id n) (n_nation_name n))
       (take 5000 (rev (sort_key n_last_active
          (filter (\<lambda>n. n_id n \<notin> set (map rt_nation_id (reset_times w))
                       \<and> n_last_active n > clock w - seven_days) (nations w)))))"

text \<open>\<open>INSERT ... ON CONFLICT (nation_id) DO UPDATE SET reset_time = $2, detected_at = $3\<close>.\<close>

fun upsert_reset :: "int \<Rightarrow> int \<Rightarrow> int \<Rightarrow> reset_row list \<Rightarrow> reset_row list" where
  "upsert_reset nid tod at [] =
     [\<lparr>rt_nation_id = nid, rt_reset_time = tod, rt_detected_at = at\<rparr>]"
| "upsert_reset nid tod at (r # rs) =
     (if rt_nation_id r = nid
      then r\<lparr>rt_reset_time := tod, rt_detected_at := at\<rparr> # rs
      else r # upsert_reset nid tod at rs)"

text \<open>
  \<open>INSERT INTO nations ... ON CONFLICT (id) DO UPDATE SET\<close> the four data columns; the
  trigger \<open>update_nations_updated_at\<close> of the migration sets \<open>updated_at\<close> on every update.
\<close>

fun upsert_nation ::
  "int \<Rightarrow> string \<Rightarrow> string \<Rightarrow> int \<Rightarrow> int \<Rightarrow> int \<Rightarrow> nation_row list \<Rightarrow> nation_row list" where
  "upsert_nation i nm ld al la now [] =
     [\<lparr>n_id = i, n_nation_name = nm, n_leader_name = ld, n_alliance_id = al,
       n_last_active = la, n_updated_at = now\<rparr>]"
| "upsert_nation i nm ld al la now (r # rs) =
     (if n_id r = i
      then r\<lparr>n_nation_name := nm, n_leader_name := ld, n_alliance_id := al,
             n_last_active := la, n_updated_at := now\<rparr> # rs
      else r # upsert_nation i nm ld al la now rs)"

text \<open>
  The constraints of the schema a statement can violate: \<open>scan_history.nation_id\<close> and
  \<open>reset_times.nation_id\<close> reference \<open>nations(id)\<close>.
\<close>

fun violates :: "query \<Rightarrow> world \<Rightarrow> bool" where
  "violates (InsertScan nid f) w = (nid \<notin> set (map n_id (nations w)))"
| "violates (UpsertReset nid tod at) w = (nid \<notin> set (map n_id (nations w)))"
| "violates q w = False"

fun rows_of :: "query \<Rightarrow> world \<Rightarrow> row list" where
  "rows_of SelectCandidates w = candidates w"
| "rows_of (SelectLastScan nid) w = last_scan nid (scan_history w)"
| "rows_of q w = []"

fun effect :: "query \<Rightarrow> world \<Rightarrow> world" where
  "effect (InsertScan nid f) w =
     w\<lparr>scan_history := scan_history w @
         [\<lparr>sh_nation_id = nid, sh_espionage_available = f, sh_scanned_at = clock w\<rparr>]\<rparr>"
| "effect (UpsertReset nid tod at) w =
     w\<lparr>reset_times := upsert_reset nid tod at (reset_times w)\<rparr>"
| "effect (UpdateNation la nid) w =
     w\<lparr>nations := map (\<lambda>n. if n_id n = nid
                              then n\<lparr>n_last_active := la, n_updated_at := clock w\<rparr> else n)
                      (nations w)\<rparr>"
| "effect (InsertError ty msg) w =
     w\<lparr>error_logs := error_logs w @ [\<lparr>el_error_type = ty, el_error_message = msg\<rparr>]\<rparr>"
| "effect (UpsertNation i nm ld al la) w =
     w\<lparr>nations := upsert_nation i nm ld al la (clock w) (nations w)\<rparr>"
| "effect q w = w"

text \<open>
  \<open>Database.query\<close> of \<open>connection.js\<close>: the statement runs on the pool; a failure is logged
  (\<open>Database query error\<close>) and thrown again. Statements are awaited one after the other,
  so each carries a later server time than the one before.
\<close>

definition db_query :: "env \<Rightarrow> query \<Rightarrow> world \<Rightarrow> (error + row list) \<times> world" where
  "db_query ev q w =
     (let n = queries w;
          w1 = w\<lparr>clock := clock w + 1 + int (db_delay ev n),
                 queries := Suc n,
                 trace := trace w @ [EvQuery q]\<rparr>
      in if db_fails ev n \<or> violates q w1
         then (Inl (DbError q), logger (DatabaseQueryError q) w1)
         else (Inr (rows_of q w1), effect q w1))"

section \<open>The scanner: \<open>recordResetTime\<close>, \<open>processResults\<close>\<close>

text \<open>
  \<open>toTimeString().split(' ')[0]\<close>: the time of day, here as seconds since midnight, with
  the server's time zone taken to be UTC.
\<close>

definition timeOnly :: "int \<Rightarrow> int" where
  "timeOnly t = (t div 1000) mod 86400"

definition recordResetTime :: "env \<Rightarrow> int \<Rightarrow> world \<Rightarrow> world" where
  "recordResetTime ev nationId w =
     (let resetTime = clock w
      in case db_query ev (UpsertReset nationId (timeOnly resetTime) resetTime) w of
           (Inr _, w1) \<Rightarrow> logger (ResetTimeDetected nationId (timeOnly resetTime)) w1
         | (Inl e, w1) \<Rightarrow> logger (FailedToRecordResetTime nationId e) w1)"

fun row_flag :: "row \<Rightarrow> bool" where
  "row_flag (ScanRow f t) = f"
| "row_flag (CandRow i nm) = False"

text \<open>The body of the \<open>try\<close> block of \<open>processResults\<close>, for one nation.\<close>

definition process_nation :: "env \<Rightarrow> api_nation \<Rightarrow> world \<Rightarrow> (error + unit) \<times> world" where
  "process_nation ev nation w =
     (case db_query ev (SelectLastScan (a_id nation)) w of
        (Inl e, w1) \<Rightarrow> (Inl e, w1)
      | (Inr lastScan, w1) \<Rightarrow>
         (case db_query ev (InsertScan (a_id nation) (a_espionage_available nation)) w1 of
            (Inl e, w2) \<Rightarrow> (Inl e, w2)
          | (Inr _, w2) \<Rightarrow>
             (let w3 = (if length lastScan > 0 \<and> \<not> row_flag (hd lastScan)
                           \<and> a_espionage_available nation
                        then recordResetTime ev (a_id nation) w2 else w2)
              in case db_query ev (UpdateNation (a_last_active nation) (a_id nation)) w3 of
                   (Inl e, w4) \<Rightarrow> (Inl e, w4)
                 | (Inr _, w4) \<Rightarrow> (Inr (), w4))))"

fun processResults :: "env \<Rightarrow> api_nation list \<Rightarrow> world \<Rightarrow> world" where
  "processResults ev [] w = w"
| "processResults ev (nation # rest) w =
     (case process_nation ev nation w of
        (Inr _, w1) \<Rightarrow> processResults ev rest w1
      | (Inl e, w1) \<Rightarrow>
          processResults ev rest (logger (FailedToProcessNation (a_id nation) e) w1))"

section \<open>The rate limiter (\<open>rateLimiter.js\<close>)\<close>

definition minBuffer :: int where
  "minBuffer = 10"

definition initial_limiter :: rate_limiter where
  "initial_limiter = \<lparr>remaining = Num 1000, resetTime = Null, limit = Num 1000\<rparr>"

text \<open>\<open>x * 1000\<close>, \<open>x <= n\<close> and the truth value of a JavaScript number.\<close>

fun js_times :: "jsnum \<Rightarrow> int \<Rightarrow> jsnum" where
  "js_times (Num x) k = Num (x * k)"
| "js_times Null k = Num 0"
| "js_times NaN k = NaN"

fun js_le :: "jsnum \<Rightarrow> int \<Rightarrow> bool" where
  "js_le (Num x) k = (x \<le> k)"
| "js_le Null k = (0 \<le> k)"
| "js_le NaN k = False"

fun js_gt :: "jsnum \<Rightarrow> int \<Rightarrow> bool" where
  "js_gt (Num x) k = (x > k)"
| "js_gt Null k = (0 > k)"
| "js_gt NaN k = False"

fun truthy :: "jsnum \<Rightarrow> bool" where
  "truthy (Num x) = (x \<noteq> 0)"
| "truthy Null = False"
| "truthy NaN = False"

fun js_int :: "jsnum \<Rightarrow> int" where
  "js_int (Num x) = x"
| "js_int Null = 0"
| "js_int NaN = 0"

definition update :: "jsnum \<Rightarrow> jsnum \<Rightarrow> jsnum \<Rightarrow> rate_limiter \<Rightarrow> rate_limiter" where
  "update rem reset lim rl = \<lparr>remaining = rem, resetTime = js_times reset 1000, limit = lim\<rparr>"

text \<open>
  \<open>sleep(ms)\<close> is \<open>setTimeout(resolve, ms)\<close>. Node takes a delay above 2147483647 ms, or
  below 1 ms, as 1 ms.
\<close>

definition timer_delay :: "int \<Rightarrow> int" where
  "timer_delay ms = (if ms > 2147483647 \<or> ms < 1 then 1 else ms)"

definition sleep :: "int \<Rightarrow> world \<Rightarrow> world" where
  "sleep ms w = w\<lparr>clock := clock w + timer_delay ms, trace := trace w @ [EvSleep ms]\<rparr>"

definition ceil_div_1000 :: "int \<Rightarrow> int" where
  "ceil_div_1000 x = - ((- x) div 1000)"

definition waitIfNeeded :: "world \<Rightarrow> world" where
  "waitIfNeeded w =
     (let w0 = w\<lparr>trace := trace w @ [EvWait]\<rparr>
      in if js_le (remaining (limiter w)) minBuffer \<and> truthy (resetTime (limiter w))
         then (let waitTime = js_int (resetTime (limiter w)) - clock w
               in if waitTime > 0
                  then sleep waitTime (logger (BufferReached (ceil_div_1000 waitTime)) w0)
                  else w0)
         else w0)"

definition canMakeRequest :: "world \<Rightarrow> bool" where
  "canMakeRequest w = js_gt (remaining (limiter w)) minBuffer"

section \<open>The API client: interceptors, \<open>fetchSpecificNations\<close>, \<open>fetchNationsBatch\<close>\<close>

text \<open>\<open>parseInt\<close> of a header: \<open>NaN\<close> when the header is absent.\<close>

fun parseInt_header :: "int option \<Rightarrow> jsnum" where
  "parseInt_header None = NaN"
| "parseInt_header (Some x) = Num x"

definition handleRateLimitHeaders :: "headers \<Rightarrow> world \<Rightarrow> world" where
  "handleRateLimitHeaders h w =
     (if x_ratelimit_remaining h \<noteq> None
      then w\<lparr>limiter := update (parseInt_header (x_ratelimit_remaining h))
                                 (parseInt_header (x_ratelimit_reset h))
                                 (parseInt_header (x_ratelimit_limit h)) (limiter w)\<rparr>
      else w)"

text \<open>\<open>headers['x-ratelimit-resetafter'] || 60\<close>.\<close>

definition retryAfter :: "headers \<Rightarrow> int" where
  "retryAfter h = (case x_ratelimit_resetafter h of Some x \<Rightarrow> x | None \<Rightarrow> 60)"

text \<open>
  One request through the axios instance. The response interceptor sees every answer:
  a 2xx answer updates the limiter; a 429 sleeps and sends \<open>error.config\<close> again through the
  same instance, so the answer to the retry passes the same interceptor; anything else is
  thrown. The recursion has no bound of its own, so the function is partial: \<open>None\<close> is the
  call that never returns.
\<close>

partial_function (option) request ::
  "env \<Rightarrow> http_request \<Rightarrow> world \<Rightarrow> ((error + body) \<times> world) option" where
  "request ev r w =
     (let n = calls w;
          rep = provider ev n r;
          w1 = w\<lparr>calls := Suc n, trace := trace w @ [EvNet r rep]\<rparr>
      in case rep of
           Ok2xx h b \<Rightarrow> Some (Inr b, handleRateLimitHeaders h w1)
         | HttpError st h \<Rightarrow>
             (if st = 429
              then request ev r (sleep (retryAfter h * 1000) (logger (RateLimited (retryAfter h)) w1))
              else Some (Inl (HttpFailure st), w1))
         | NoResponse \<Rightarrow> Some (Inl NetworkFailure, w1))"

declare request.simps [code]

text \<open>The loop \<open>for (i = 0; i < nationIds.length; i += batchSize)\<close> with \<open>slice(i, i + batchSize)\<close>.\<close>

definition batchSize :: nat where
  "batchSize = 100"

function batches_from :: "nat \<Rightarrow> int list \<Rightarrow> int list list" where
  "batches_from i nationIds =
     (if i < length nationIds
      then take batchSize (drop i nationIds) # batches_from (i + batchSize) nationIds
      else [])"
  by pat_completeness auto
termination
  by (relation "measure (\<lambda>(i, nationIds). length nationIds - i)") (auto simp: batchSize_def)

text \<open>\<open>response.data.data?.nations?.data\<close>: the array of nations, when the answer has one.\<close>

fun body_data :: "body \<Rightarrow> api_nation list option" where
  "body_data GqlErrors = None"
| "body_data (PageBody d h c) = Some d"
| "body_data (IdsBody d) = d"

fun fetch_batches ::
  "env \<Rightarrow> int list list \<Rightarrow> api_nation list \<Rightarrow> world \<Rightarrow> (api_nation list \<times> world) option" where
  "fetch_batches ev [] results w = Some (results, w)"
| "fetch_batches ev (batch # rest) results w =
     (case request ev (ReqByIds batch) (waitIfNeeded w) of
        None \<Rightarrow> None
      | Some (Inr b, w1) \<Rightarrow>
          (case body_data b of
             Some d \<Rightarrow> fetch_batches ev rest (results @ d) w1
           | None \<Rightarrow> fetch_batches ev rest results w1)
      | Some (Inl e, w1) \<Rightarrow>
          fetch_batches ev rest results (logger (FailedToFetchSpecific (take 5 batch) e) w1))"

definition fetchSpecificNations ::
  "env \<Rightarrow> int list \<Rightarrow> world \<Rightarrow> (api_nation list \<times> world) option" where
  "fetchSpecificNations ev nationIds w = fetch_batches ev (batches_from 0 nationIds) [] w"

section \<open>The bootstrap: \<open>initializeNations\<close> and the page cursor\<close>






























section \<open>The scan cycle: \<open>getNationsToScan\<close>, \<open>logError\<close>, \<open>performScan\<close>\<close>

definition getNationsToScan :: "env \<Rightarrow> world \<Rightarrow> (error + row list) \<times> world" where
  "getNationsToScan ev w = db_query ev SelectCandidates w"

fun error_message :: "error \<Rightarrow> string" where
  "error_message (DbError q) = ''database error''"
| "error_message (HttpFailure st) = ''Request failed with status code''"
| "error_message NetworkFailure = ''Network Error''"
| "error_message GraphQLFailed = ''GraphQL query failed''"
| "error_message TypeError = ''TypeError''"

definition logError :: "env \<Rightarrow> string \<Rightarrow> string \<Rightarrow> world \<Rightarrow> world" where
  "logError ev ty msg w =
     (case db_query ev (InsertError ty msg) w of
        (Inr _, w1) \<Rightarrow> w1
      | (Inl e, w1) \<Rightarrow> logger (FailedToLogError e) w1)"

fun row_id :: "row \<Rightarrow> int" where
  "row_id (CandRow i nm) = i"
| "row_id (ScanRow f t) = 0"

definition performScan :: "env \<Rightarrow> world \<Rightarrow> world option" where
  "performScan ev w =
     (let startTime = clock w;
          w0 = logger (Info ''Starting scan cycle'') w
      in case getNationsToScan ev w0 of
           (Inl e, w1) \<Rightarrow>
             Some (logError ev ''SCAN_CYCLE_ERROR'' (error_message e) (logger (ScanCycleFailed e) w1))
         | (Inr nationsToScan, w1) \<Rightarrow>
             (if length nationsToScan = 0
              then Some (logger (Info ''No nations to scan'') w1)
              else (let w2 = logger (Info ''Scanning nations'') w1;
                        nationIds = map row_id nationsToScan
                    in case fetchSpecificNations ev nationIds w2 of
                         None \<Rightarrow> None
                       | Some (apiResults, w3) \<Rightarrow>
                           (let w4 = processResults ev apiResults w3
                            in Some (logger (ScanCompleted (clock w4 - startTime)) w4)))))"

section \<open>Observables: what a run leaves behind\<close>

text \<open>The nations for which \<open>processResults\<close> issued its first statement, read off the trace.\<close>

fun select_ids :: "event list \<Rightarrow> int list" where
  "select_ids [] = []"
| "select_ids (EvQuery (SelectLastScan nid) # es) = nid # select_ids es"
| "select_ids (e # es) = select_ids es"

text \<open>
  A nation's ScanRecord sequence, by timestamp, and whether it holds two adjacent
  observations \<open>false\<close> then \<open>true\<close>.
\<close>

fun has_transition :: "bool list \<Rightarrow> bool" where
  "has_transition (a # b # rest) = ((\<not> a \<and> b) \<or> has_transition (b # rest))"
| "has_transition rest = False"

definition scan_seq :: "int \<Rightarrow> world \<Rightarrow> bool list" where
  "scan_seq E w = map sh_espionage_available
     (sort_key sh_scanned_at (filter (\<lambda>r. sh_nation_id r = E) (scan_history w)))"

definition has_reset :: "int \<Rightarrow> world \<Rightarrow> bool" where
  "has_reset E w = (E \<in> set (map rt_nation_id (reset_times w)))"

definition reset_write_failed :: "int \<Rightarrow> world \<Rightarrow> bool" where
  "reset_write_failed E w = (\<exists>e. FailedToRecordResetTime E e \<in> set (logged w))"

fun run_cycles :: "env \<Rightarrow> api_nation list list \<Rightarrow> world \<Rightarrow> world" where
  "run_cycles ev [] w = w"
| "run_cycles ev (batch # rest) w = run_cycles ev rest (processResults ev batch w)"

definition fresh_world :: "nation_row list \<Rightarrow> int \<Rightarrow> world" where
  "fresh_world nats t0 = \<lparr>nations = nats, scan_history = [], reset_times = [], error_logs = [],
     clock = t0, queries = 0, calls = 0, limiter = initial_limiter, logged = [], trace = []\<rparr>"

definition ordered :: "world \<Rightarrow> bool" where
  "ordered w = (sorted (map sh_scanned_at (scan_history w))
                \<and> (\<forall>r\<in>set (scan_history w). sh_scanned_at r \<le> clock w))"

definition detect_inv :: "world \<Rightarrow> bool" where
  "detect_inv w = (ordered w
     \<and> (\<forall>E. has_reset E w \<longrightarrow> has_transition (scan_seq E w))
     \<and> (\<forall>E. has_transition (scan_seq E w) \<longrightarrow> has_reset E w \<or> reset_write_failed E w))"




fun sleeps :: "event list \<Rightarrow> int list" where
  "sleeps [] = []"
| "sleeps (EvSleep ms # es) = ms # sleeps es"
| "sleeps (e # es) = sleeps es"












section \<open>Concrete worlds and environments\<close>

definition ev_ok :: env where
  "ev_ok = \<lparr>db_fails = (\<lambda>n. False), db_delay = (\<lambda>n. 0), provider = (\<lambda>n r. NoResponse)\<rparr>"

definition nation555 :: nation_row where
  "nation555 = \<lparr>n_id = 555, n_nation_name = ''Arcadia'', n_leader_name = ''Leader'',
     n_alliance_id = 7, n_last_active = 900000, n_updated_at = 0\<rparr>"

definition w_start :: world where
  "w_start = \<lparr>nations = [nation555], scan_history = [], reset_times = [], error_logs = [],
     clock = 1000000, queries = 0, calls = 0,
     limiter = initial_limiter, logged = [], trace = []\<rparr>"

definition w_limited :: world where
  "w_limited = \<lparr>nations = [], scan_history = [], reset_times = [], error_logs = [],
     clock = 1000000, queries = 0, calls = 0,
     limiter = \<lparr>remaining = Num 5, resetTime = Num 1030000, limit = Num 1000\<rparr>,
     logged = [], trace = []\<rparr>"

definition w_today :: world where
  "w_today = fresh_world [nation555] 1700000000000"

definition far_reset :: headers where
  "far_reset = \<lparr>x_ratelimit_remaining = Some 5, x_ratelimit_reset = Some 1702147484,
     x_ratelimit_limit = Some 1000, x_ratelimit_resetafter = None\<rparr>"

definition w_exhausted :: world where
  "w_exhausted = \<lparr>nations = [], scan_history = [], reset_times = [], error_logs = [],
     clock = 1000000, queries = 0, calls = 0,
     limiter = \<lparr>remaining = Num 0, resetTime = Null, limit = Num 1000\<rparr>,
     logged = [], trace = []\<rparr>"

definition w_tracked :: world where
  "w_tracked = \<lparr>nations = [nation555],
     scan_history =
       [\<lparr>sh_nation_id = 555, sh_espionage_available = False, sh_scanned_at = 990000\<rparr>,
        \<lparr>sh_nation_id = 555, sh_espionage_available = True, sh_scanned_at = 999999\<rparr>],
     reset_times = [\<lparr>rt_nation_id = 555, rt_reset_time = 1000, rt_detected_at = 1000000\<rparr>],
     error_logs = [], clock = 1000000, queries = 0, calls = 0,
     limiter = initial_limiter, logged = [], trace = []\<rparr>"

definition ev_fail_at :: "nat \<Rightarrow> env" where
  "ev_fail_at k = \<lparr>db_fails = (\<lambda>n. n = k), db_delay = (\<lambda>n. 0), provider = (\<lambda>n r. NoResponse)\<rparr>"

definition nation556 :: nation_row where
  "nation556 = \<lparr>n_id = 556, n_nation_name = ''Borealis'', n_leader_name = ''Chief'',
     n_alliance_id = 0, n_last_active = 950000, n_updated_at = 0\<rparr>"

definition w_two :: world where
  "w_two = \<lparr>nations = [nation555, nation556], scan_history = [], reset_times = [],
     error_logs = [], clock = 1000000, queries = 0, calls = 0,
     limiter = initial_limiter, logged = [], trace = []\<rparr>"

definition seen :: "int \<Rightarrow> bool \<Rightarrow> int \<Rightarrow> api_nation" where
  "seen i f la = \<lparr>a_id = i, a_nation_name = [], a_leader_name = [], a_alliance_id = 0,
     a_espionage_available = f, a_last_active = la\<rparr>"

definition w_seen_false :: world where
  "w_seen_false = \<lparr>nations = [nation555],
     scan_history = [\<lparr>sh_nation_id = 555, sh_espionage_available = False, sh_scanned_at = 999000\<rparr>],
     reset_times = [], error_logs = [], clock = 1000000, queries = 3, calls = 0,
     limiter = initial_limiter, logged = [], trace = []\<rparr>"










section \<open>Unfolding the concrete runs\<close>

lemmas ex_defs = ev_ok_def ev_fail_at_def nation555_def nation556_def w_start_def w_two_def seen_def
  initial_limiter_def

lemmas run_defs = process_nation_def recordResetTime_def db_query_def logger_def Let_def
  last_scan_def timeOnly_def

lemma seen_sel [simp]:
  "a_id (seen i f la) = i" "a_espionage_available (seen i f la) = f" "a_last_active (seen i f la) = la"
  by (simp_all add: seen_def)

lemmas ex2_defs = ex_defs fresh_world_def
lemmas run2_defs = run_defs scan_seq_def has_reset_def reset_write_failed_def

section \<open>The reset table: one row per nation\<close>

lemma upsert_reset_ids:
  "map rt_nation_id (upsert_reset nid tod at rs) =
     (if nid \<in> set (map rt_nation_id rs) then map rt_nation_id rs
      else map rt_nation_id rs @ [nid])"
  by (induction rs) auto

lemma upsert_reset_filter:
  "distinct (map rt_nation_id rs) \<Longrightarrow>
   filter (\<lambda>r. rt_nation_id r = nid) (upsert_reset nid tod at rs) =
     [\<lparr>rt_nation_id = nid, rt_reset_time = tod, rt_detected_at = at\<rparr>]"
proof (induction rs)
  case Nil
  then show ?case by simp
next
  case (Cons r rs)
  show ?case
  proof (cases "rt_nation_id r = nid")
    case True
    from Cons.prems have "rt_nation_id r \<notin> rt_nation_id ` set rs" by simp
    with True have "\<forall>x\<in>set rs. rt_nation_id x \<noteq> nid" by blast
    then have "filter (\<lambda>r. rt_nation_id r = nid) rs = []" by (simp add: filter_empty_conv)
    with True show ?thesis by simp
  next
    case False
    with Cons show ?thesis by simp
  qed
qed

lemma upsert_reset_idem:
  "upsert_reset nid tod at (upsert_reset nid tod at rs) = upsert_reset nid tod at rs"
  by (induction rs) auto

text \<open>
  Claim C6, as the code has it. The upsert is keyed on the nation id: a table with at most
  one row per nation keeps that property through \<open>recordResetTime\<close>; a detection for a nation
  that already has a row adds no row; when the statement succeeds, the nation's only row
  carries the wall-clock time of this detection (\<open>reset_time\<close> and \<open>detected_at\<close> are
  overwritten); and the statement repeated with the same three parameters changes nothing.
\<close>

theorem recordResetTime_overwrites:
  assumes "distinct (map rt_nation_id (reset_times w))"
  shows "distinct (map rt_nation_id (reset_times (recordResetTime ev nid w)))
       \<and> (nid \<in> set (map rt_nation_id (reset_times w)) \<longrightarrow>
            map rt_nation_id (reset_times (recordResetTime ev nid w))
              = map rt_nation_id (reset_times w))
       \<and> (\<not> db_fails ev (queries w) \<and> nid \<in> set (map n_id (nations w)) \<longrightarrow>
            filter (\<lambda>r. rt_nation_id r = nid) (reset_times (recordResetTime ev nid w))
              = [\<lparr>rt_nation_id = nid, rt_reset_time = timeOnly (clock w),
                  rt_detected_at = clock w\<rparr>])
       \<and> upsert_reset nid tod at (upsert_reset nid tod at (reset_times w))
            = upsert_reset nid tod at (reset_times w)"
  using assms
  by (simp add: recordResetTime_def db_query_def logger_def Let_def upsert_reset_ids
      upsert_reset_filter upsert_reset_idem)

theorem recordResetTime_overwrites_witness:
  "distinct (map rt_nation_id (reset_times (recordResetTime ev_ok 555 w_start)))
   \<and> 555 \<in> set (map rt_nation_id (reset_times (recordResetTime ev_ok 555 w_start)))
   \<and> \<not> db_fails ev_ok (queries (recordResetTime ev_ok 555 w_start))
   \<and> 555 \<in> set (map n_id (nations (recordResetTime ev_ok 555 w_start)))
   \<and> reset_times (recordResetTime ev_ok 555 (recordResetTime ev_ok 555 w_start))
       = [\<lparr>rt_nation_id = 555, rt_reset_time = 1000, rt_detected_at = 1000001\<rparr>]"
  using recordResetTime_overwrites [of "recordResetTime ev_ok 555 w_start" ev_ok 555 0 0]
  by (simp add: recordResetTime_def db_query_def logger_def Let_def w_start_def ev_ok_def
      nation555_def timeOnly_def)

text \<open>
  Claim C6 as stated fails: the second detection for nation 555 reads the clock again, so the
  row after the repeat differs from the row before it.
\<close>

theorem recordResetTime_repeat_counterexample:
  "reset_times (recordResetTime ev_ok 555 (recordResetTime ev_ok 555 w_start))
     \<noteq> reset_times (recordResetTime ev_ok 555 w_start)"
  by (simp add: recordResetTime_def db_query_def logger_def Let_def w_start_def ev_ok_def
      nation555_def timeOnly_def)

section \<open>The rate limiter\<close>

text \<open>
  Where \<open>waitIfNeeded\<close> does what is expected of it: with \<open>remaining <= 10\<close> and \<open>resetTime\<close> a
  number at most 2147483647 ms ahead, \<open>max(0, resetTime - now)\<close> milliseconds pass; when
  \<open>remaining\<close> is above 10 (or is not a number), or \<open>resetTime\<close> is \<open>null\<close> or not a number, it
  returns with the clock where it was, having slept and logged nothing.
\<close>

lemma waitIfNeeded_within_timer_range:
  "0 \<le> clock w \<Longrightarrow>
   (remaining (limiter w) = Num m \<and> m \<le> 10 \<and> resetTime (limiter w) = Num r
      \<and> r - clock w \<le> 2147483647 \<longrightarrow>
      clock (waitIfNeeded w) = clock w + max 0 (r - clock w)) \<and>
   ((remaining (limiter w) = Num m \<and> m > 10) \<or> remaining (limiter w) = NaN
      \<or> resetTime (limiter w) = Null \<or> resetTime (limiter w) = NaN \<longrightarrow>
      clock (waitIfNeeded w) = clock w \<and> trace (waitIfNeeded w) = trace w @ [EvWait]
      \<and> logged (waitIfNeeded w) = logged w)"
  by (auto simp: waitIfNeeded_def minBuffer_def sleep_def timer_delay_def logger_def Let_def)

lemma waitIfNeeded_thirty_seconds:
  "remaining (limiter w_limited) = Num 5
   \<and> resetTime (limiter w_limited) = Num (clock w_limited + 30000)
   \<and> clock (waitIfNeeded w_limited) = clock w_limited + 30000
   \<and> remaining (limiter w_exhausted) = Num 0 \<and> resetTime (limiter w_exhausted) = Null
   \<and> clock (waitIfNeeded w_exhausted) = clock w_exhausted"
  using waitIfNeeded_within_timer_range [of w_limited 5 1030000]
    waitIfNeeded_within_timer_range [of w_exhausted 0 0]
  by (simp add: w_limited_def w_exhausted_def)

text \<open>
  Claim C5 fails on the code for a wait beyond the range of the timer. At
  \<open>Date.now() = 1700000000000\<close> the provider's headers say \<open>remaining = 5\<close> and a reset at
  second 1702147484, which is 2147484 seconds ahead: the limiter takes them, \<open>waitIfNeeded\<close>
  logs a wait of 2147484 seconds, asks the timer for 2147484000 ms, and is back after
  1 ms, where the claim has it block until the reset.
\<close>

theorem waitIfNeeded_long_wait:
  "remaining (limiter (handleRateLimitHeaders far_reset w_today)) = Num 5
   \<and> resetTime (limiter (handleRateLimitHeaders far_reset w_today))
       = Num (clock w_today + 2147484000)
   \<and> logged (waitIfNeeded (handleRateLimitHeaders far_reset w_today)) = [BufferReached 2147484]
   \<and> sleeps (trace (waitIfNeeded (handleRateLimitHeaders far_reset w_today))) = [2147484000]
   \<and> clock (waitIfNeeded (handleRateLimitHeaders far_reset w_today)) = clock w_today + 1"
  by (simp add: waitIfNeeded_def handleRateLimitHeaders_def far_reset_def update_def w_today_def
      fresh_world_def initial_limiter_def minBuffer_def sleep_def timer_delay_def logger_def
      ceil_div_1000_def Let_def)

section \<open>Requests through the interceptors\<close>













section \<open>Fetching by id\<close>

declare batches_from.simps [simp del]













text \<open>
  Claim C10. \<open>fetchSpecificNations\<close> on an empty id list returns the empty result and leaves
  the world as it was: no network attempt, no call of \<open>waitIfNeeded\<close>, nothing logged.
\<close>

theorem fetchSpecificNations_empty:
  "fetchSpecificNations ev [] w = Some ([], w)"
  by (simp add: fetchSpecificNations_def batches_from.simps [of 0 "[]"])

section \<open>The scan cycle\<close>

text \<open>
  Claim C8. When the candidate query succeeds and selects no nation, \<open>performScan\<close> returns
  at once: every table is as before, no network attempt was made, the limiter is untouched,
  and the only statement issued is the candidate query itself.
\<close>

theorem performScan_empty:
  assumes "\<not> db_fails ev (queries w)"
      and "candidates (w\<lparr>clock := clock w + 1 + int (db_delay ev (queries w))\<rparr>) = []"
  shows "\<exists>w'. performScan ev w = Some w'
           \<and> nations w' = nations w \<and> scan_history w' = scan_history w
           \<and> reset_times w' = reset_times w \<and> error_logs w' = error_logs w
           \<and> calls w' = calls w \<and> limiter w' = limiter w
           \<and> trace w' = trace w @ [EvQuery SelectCandidates]
           \<and> logged w' = logged w @ [Info ''Starting scan cycle'', Info ''No nations to scan'']"
  using assms
  by (simp add: performScan_def getNationsToScan_def db_query_def logger_def Let_def candidates_def)

theorem performScan_empty_witness:
  "\<not> db_fails ev_ok (queries w_tracked)
   \<and> candidates (w_tracked\<lparr>clock := clock w_tracked + 1 + int (db_delay ev_ok (queries w_tracked))\<rparr>) = []
   \<and> (\<exists>w'. performScan ev_ok w_tracked = Some w'
           \<and> scan_history w' = scan_history w_tracked \<and> reset_times w' = reset_times w_tracked
           \<and> calls w' = 0 \<and> trace w' = [EvQuery SelectCandidates])"
proof -
  have h1: "\<not> db_fails ev_ok (queries w_tracked)"
    by (simp add: ev_ok_def)
  have h2: "candidates (w_tracked\<lparr>clock := clock w_tracked + 1
               + int (db_delay ev_ok (queries w_tracked))\<rparr>) = []"
    by (simp add: candidates_def w_tracked_def nation555_def)
  from performScan_empty [OF h1 h2] obtain w' where
    "performScan ev_ok w_tracked = Some w'" "scan_history w' = scan_history w_tracked"
    "reset_times w' = reset_times w_tracked"
    "calls w' = calls w_tracked" "trace w' = trace w_tracked @ [EvQuery SelectCandidates]"
    by blast
  then have "performScan ev_ok w_tracked = Some w' \<and> scan_history w' = scan_history w_tracked
           \<and> reset_times w' = reset_times w_tracked
           \<and> calls w' = 0 \<and> trace w' = [EvQuery SelectCandidates]"
    by (simp add: w_tracked_def)
  with h1 h2 show ?thesis by blast
qed

section \<open>The per-nation boundary of \<open>processResults\<close>\<close>

lemma select_ids_append: "select_ids (xs @ ys) = select_ids xs @ select_ids ys"
  by (induction xs rule: select_ids.induct) auto

lemma db_query_trace: "trace (snd (db_query ev q w)) = trace w @ [EvQuery q]"
  by (simp add: db_query_def Let_def logger_def; cases q; simp)

lemma recordResetTime_trace:
  "trace (recordResetTime ev nid w) = trace w @ [EvQuery (UpsertReset nid (timeOnly (clock w)) (clock w))]"
  using db_query_trace [of ev "UpsertReset nid (timeOnly (clock w)) (clock w)" w]
  by (auto simp: recordResetTime_def Let_def logger_def split: prod.splits sum.splits)

lemma db_query_traceD: "db_query ev q w = (r, w') \<Longrightarrow> trace w' = trace w @ [EvQuery q]"
  using db_query_trace [of ev q w] by simp

lemma process_nation_trace:
  "\<exists>tl. trace (snd (process_nation ev n w)) = trace w @ EvQuery (SelectLastScan (a_id n)) # tl
        \<and> select_ids tl = []"
  unfolding process_nation_def Let_def
  by (auto split: prod.splits sum.splits dest!: db_query_traceD simp: recordResetTime_trace)

lemma processResults_select_ids:
  "select_ids (trace (processResults ev batch w)) = select_ids (trace w) @ map a_id batch"
proof (induction batch arbitrary: w)
  case Nil
  then show ?case by simp
next
  case (Cons n rest)
  obtain r w1 where p: "process_nation ev n w = (r, w1)" by fastforce
  from process_nation_trace [of ev n w] p obtain tl where
    tl: "trace w1 = trace w @ EvQuery (SelectLastScan (a_id n)) # tl" "select_ids tl = []"
    by auto
  then have s1: "select_ids (trace w1) = select_ids (trace w) @ [a_id n]"
    by (simp add: select_ids_append)
  show ?case
  proof (cases r)
    case (Inl e)
    with p Cons.IH [of "logger (FailedToProcessNation (a_id n) e) w1"] s1
    show ?thesis by (simp add: logger_def)
  next
    case (Inr u)
    with p Cons.IH [of w1] s1 show ?thesis by simp
  qed
qed

lemma processResults_append:
  "processResults ev (xs @ ys) w = processResults ev ys (processResults ev xs w)"
  by (induction xs arbitrary: w) (auto split: prod.splits sum.splits)

lemma db_query_loggedD: "db_query ev q w = (r, w') \<Longrightarrow> \<exists>l. logged w' = logged w @ l"
  by (cases q) (auto simp: db_query_def Let_def logger_def split: if_splits)

lemma process_nation_logged: "\<exists>l. logged (snd (process_nation ev n w)) = logged w @ l"
proof -
  have r: "\<And>w. \<exists>l. logged (recordResetTime ev (a_id n) w) = logged w @ l"
    by (auto simp: recordResetTime_def Let_def logger_def split: prod.splits sum.splits
        dest!: db_query_loggedD)
  show ?thesis
    unfolding process_nation_def Let_def
    apply (auto split: prod.splits sum.splits dest!: db_query_loggedD)
    using r apply (metis append.assoc)+
    done
qed

lemma processResults_logged: "\<exists>l. logged (processResults ev batch w) = logged w @ l"
proof (induction batch arbitrary: w)
  case Nil
  then show ?case by simp
next
  case (Cons n rest)
  obtain r w1 where p: "process_nation ev n w = (r, w1)" by fastforce
  from process_nation_logged [of ev n w] p obtain l1 where l1: "logged w1 = logged w @ l1"
    by auto
  show ?case
  proof (cases r)
    case (Inl e)
    from Cons.IH [of "logger (FailedToProcessNation (a_id n) e) w1"] obtain l2 where
      "logged (processResults ev rest (logger (FailedToProcessNation (a_id n) e) w1))
         = logged (logger (FailedToProcessNation (a_id n) e) w1) @ l2" by blast
    with p Inl l1 show ?thesis by (simp add: logger_def)
  next
    case (Inr u)
    from Cons.IH [of w1] obtain l2 where "logged (processResults ev rest w1) = logged w1 @ l2"
      by blast
    with p Inr l1 show ?thesis by simp
  qed
qed

text \<open>
  Claim C7. Whatever fails, \<open>processResults\<close> starts the processing of every nation of the
  batch, in order: the statements \<open>SELECT ... FROM scan_history\<close> it issues are exactly one per
  nation of the batch. When the processing of a nation raises (any statement of its \<open>try\<close>
  block fails, a write included), the failure is logged for that nation and the nations after
  it are processed all the same.
\<close>

theorem processResults_continues:
  "select_ids (trace (processResults ev batch w)) = select_ids (trace w) @ map a_id batch
   \<and> (process_nation ev n (processResults ev pre w) = (Inl e, w1) \<longrightarrow>
        FailedToProcessNation (a_id n) e \<in> set (logged (processResults ev (pre @ n # post) w))
        \<and> select_ids (trace (processResults ev (pre @ n # post) w))
            = select_ids (trace w) @ map a_id pre @ a_id n # map a_id post)"
proof (intro conjI impI)
  show "select_ids (trace (processResults ev batch w)) = select_ids (trace w) @ map a_id batch"
    by (rule processResults_select_ids)
next
  assume f: "process_nation ev n (processResults ev pre w) = (Inl e, w1)"
  from processResults_logged [of ev post "logger (FailedToProcessNation (a_id n) e) w1"]
  obtain l where "logged (processResults ev post (logger (FailedToProcessNation (a_id n) e) w1))
      = logged w1 @ FailedToProcessNation (a_id n) e # l"
    by (auto simp: logger_def)
  with f show "FailedToProcessNation (a_id n) e
      \<in> set (logged (processResults ev (pre @ n # post) w))"
    by (simp add: processResults_append)
next
  show "select_ids (trace (processResults ev (pre @ n # post) w))
            = select_ids (trace w) @ map a_id pre @ a_id n # map a_id post"
    by (simp add: processResults_select_ids)
qed

theorem processResults_continues_witness:
  "fst (process_nation (ev_fail_at 1) (seen 555 False 1) w_two) = Inl (DbError (InsertScan 555 False))
   \<and> FailedToProcessNation 555 (DbError (InsertScan 555 False))
        \<in> set (logged (processResults (ev_fail_at 1) [seen 555 False 1, seen 556 True 2] w_two))
   \<and> select_ids (trace (processResults (ev_fail_at 1) [seen 555 False 1, seen 556 True 2] w_two))
        = [555, 556]
   \<and> map sh_nation_id (scan_history (processResults (ev_fail_at 1) [seen 555 False 1, seen 556 True 2] w_two))
        = [556]"
proof -
  have h0: "fst (process_nation (ev_fail_at 1) (seen 555 False 1) w_two)
      = Inl (DbError (InsertScan 555 False))"
    by (simp add: run_defs ex_defs)
  then have h: "process_nation (ev_fail_at 1) (seen 555 False 1) (processResults (ev_fail_at 1) [] w_two)
      = (Inl (DbError (InsertScan 555 False)), snd (process_nation (ev_fail_at 1) (seen 555 False 1) w_two))"
    by (simp add: prod_eq_iff)
  have s: "map sh_nation_id (scan_history (processResults (ev_fail_at 1) [seen 555 False 1, seen 556 True 2] w_two))
        = [556]"
    by (simp add: run_defs ex_defs)
  have t: "select_ids (trace w_two) = []"
    by (simp add: w_two_def)
  from processResults_continues [of "ev_fail_at 1" "[]" w_two "seen 555 False 1" "[]"
      "DbError (InsertScan 555 False)" _ "[seen 556 True 2]"] h
  have "FailedToProcessNation 555 (DbError (InsertScan 555 False))
        \<in> set (logged (processResults (ev_fail_at 1) [seen 555 False 1, seen 556 True 2] w_two))
     \<and> select_ids (trace (processResults (ev_fail_at 1) [seen 555 False 1, seen 556 True 2] w_two))
        = [555, 556]"
    by (simp add: t del: processResults.simps)
  with h0 s show ?thesis by blast
qed

text \<open>
  Claim C9. \<open>recordResetTime\<close> returns normally when its upsert fails. For a nation whose last
  scan is \<open>false\<close> and which is now seen \<open>true\<close>: when the upsert (the third statement) fails
  and the other three succeed, processing the nation raises nothing; the new ScanRecord is in
  place, \<open>reset_times\<close> is as before, the failure is logged by \<open>recordResetTime\<close> only, and the
  \<open>UPDATE nations\<close> statement runs after it.
\<close>

theorem process_nation_reset_write_fails:
  assumes "last_scan (a_id n) (scan_history w) = [ScanRow False t]"
      and "a_espionage_available n"
      and "a_id n \<in> set (map n_id (nations w))"
      and "\<not> db_fails ev (queries w)" and "\<not> db_fails ev (Suc (queries w))"
      and "db_fails ev (Suc (Suc (queries w)))" and "\<not> db_fails ev (Suc (Suc (Suc (queries w))))"
  shows "\<exists>w' t2 q. processResults ev [n] w = w'
         \<and> process_nation ev n w = (Inr (), w')
         \<and> q = UpsertReset (a_id n) (timeOnly t2) t2
         \<and> scan_history w' = scan_history w @
              [\<lparr>sh_nation_id = a_id n, sh_espionage_available = True, sh_scanned_at = t2\<rparr>]
         \<and> reset_times w' = reset_times w
         \<and> logged w' = logged w @ [DatabaseQueryError q, FailedToRecordResetTime (a_id n) (DbError q)]
         \<and> trace w' = trace w @ [EvQuery (SelectLastScan (a_id n)), EvQuery (InsertScan (a_id n) True),
              EvQuery q, EvQuery (UpdateNation (a_last_active n) (a_id n))]
         \<and> map (\<lambda>r. (n_id r, n_last_active r)) (nations w')
             = map (\<lambda>r. (n_id r, if n_id r = a_id n then a_last_active n else n_last_active r))
                 (nations w)"
  using assms
  by (simp add: process_nation_def recordResetTime_def db_query_def logger_def Let_def)

theorem process_nation_reset_write_fails_witness:
  "last_scan (a_id (seen 555 True 2)) (scan_history w_seen_false) = [ScanRow False 999000]
   \<and> a_espionage_available (seen 555 True 2)
   \<and> a_id (seen 555 True 2) \<in> set (map n_id (nations w_seen_false))
   \<and> \<not> db_fails (ev_fail_at 5) (queries w_seen_false)
   \<and> \<not> db_fails (ev_fail_at 5) (Suc (queries w_seen_false))
   \<and> db_fails (ev_fail_at 5) (Suc (Suc (queries w_seen_false)))
   \<and> \<not> db_fails (ev_fail_at 5) (Suc (Suc (Suc (queries w_seen_false))))
   \<and> reset_times (processResults (ev_fail_at 5) [seen 555 True 2] w_seen_false) = []
   \<and> map sh_espionage_available
        (scan_history (processResults (ev_fail_at 5) [seen 555 True 2] w_seen_false)) = [False, True]
   \<and> fst (process_nation (ev_fail_at 5) (seen 555 True 2) w_seen_false) = Inr ()"
proof -
  have h1: "last_scan (a_id (seen 555 True 2)) (scan_history w_seen_false) = [ScanRow False 999000]"
    by (simp add: last_scan_def w_seen_false_def)
  have h2: "a_espionage_available (seen 555 True 2)" by simp
  have h3: "a_id (seen 555 True 2) \<in> set (map n_id (nations w_seen_false))"
    by (simp add: w_seen_false_def nation555_def)
  have h4: "\<not> db_fails (ev_fail_at 5) (queries w_seen_false)"
     "\<not> db_fails (ev_fail_at 5) (Suc (queries w_seen_false))"
     "db_fails (ev_fail_at 5) (Suc (Suc (queries w_seen_false)))"
     "\<not> db_fails (ev_fail_at 5) (Suc (Suc (Suc (queries w_seen_false))))"
    by (simp_all add: ev_fail_at_def w_seen_false_def)
  from process_nation_reset_write_fails [OF h1 h2 h3 h4] obtain w' where
    w': "processResults (ev_fail_at 5) [seen 555 True 2] w_seen_false = w'"
      "process_nation (ev_fail_at 5) (seen 555 True 2) w_seen_false = (Inr (), w')"
      "reset_times w' = reset_times w_seen_false"
      "map sh_espionage_available (scan_history w') = map sh_espionage_available (scan_history w_seen_false) @ [True]"
    by auto
  then have "reset_times w' = [] \<and> map sh_espionage_available (scan_history w') = [False, True]"
    by (simp add: w_seen_false_def)
  with h1 h2 h3 h4 w' show ?thesis by (simp del: processResults.simps)
qed

section \<open>Reset records and false-to-true transitions\<close>

lemma has_transition_snoc:
  "has_transition (xs @ [y]) = (has_transition xs \<or> (xs \<noteq> [] \<and> \<not> last xs \<and> y))"
  by (induction xs rule: has_transition.induct) auto

lemma scan_seq_ordered:
  "ordered w \<Longrightarrow> scan_seq E w = map sh_espionage_available (filter (\<lambda>r. sh_nation_id r = E) (scan_history w))"
  unfolding scan_seq_def ordered_def
  by (simp add: sort_key_id_if_sorted sorted_filter)

lemma last_scan_ordered:
  "ordered w \<Longrightarrow>
   (length (last_scan E (scan_history w)) > 0 \<and> \<not> row_flag (hd (last_scan E (scan_history w))))
     = (scan_seq E w \<noteq> [] \<and> \<not> last (scan_seq E w))"
proof -
  assume o: "ordered w"
  let ?xs = "filter (\<lambda>r. sh_nation_id r = E) (scan_history w)"
  have s: "sort_key sh_scanned_at ?xs = ?xs"
    using o unfolding ordered_def by (simp add: sort_key_id_if_sorted sorted_filter)
  show ?thesis
  proof (cases "?xs = []")
    case True
    then show ?thesis by (simp add: last_scan_def scan_seq_def)
  next
    case False
    then obtain ys y where e: "?xs = ys @ [y]" by (metis rev_exhaust)
    with s have "sort_key sh_scanned_at (ys @ [y]) = ys @ [y]" by simp
    with e show ?thesis by (simp add: last_scan_def scan_seq_def)
  qed
qed

lemma detect_inv_frame:
  assumes "detect_inv w" "scan_history w' = scan_history w" "reset_times w' = reset_times w"
    "clock w \<le> clock w'" "set (logged w) \<subseteq> set (logged w')"
  shows "detect_inv w'"
proof -
  have o: "ordered w'"
    using assms unfolding detect_inv_def ordered_def by force
  have s: "\<And>E. scan_seq E w' = scan_seq E w"
    using assms(2) by (simp add: scan_seq_def)
  have r: "\<And>E. has_reset E w' = has_reset E w"
    using assms(3) by (simp add: has_reset_def)
  have f: "\<And>E. reset_write_failed E w \<Longrightarrow> reset_write_failed E w'"
    using assms(5) unfolding reset_write_failed_def by blast
  show ?thesis
    using assms(1) o f unfolding detect_inv_def s r by blast
qed

lemma db_query_select:
  "db_query ev (SelectLastScan E) w = (r, w') \<Longrightarrow>
     scan_history w' = scan_history w \<and> reset_times w' = reset_times w \<and> clock w \<le> clock w'
     \<and> set (logged w) \<subseteq> set (logged w')
     \<and> (\<forall>rows. r = Inr rows \<longrightarrow> rows = last_scan E (scan_history w))"
  by (auto simp: db_query_def Let_def logger_def split: if_splits)

lemma db_query_update:
  "db_query ev (UpdateNation la E) w = (r, w') \<Longrightarrow>
     scan_history w' = scan_history w \<and> reset_times w' = reset_times w \<and> clock w \<le> clock w'
     \<and> set (logged w) \<subseteq> set (logged w')"
  by (auto simp: db_query_def Let_def logger_def split: if_splits)

lemma db_query_insert:
  "db_query ev (InsertScan E f) w = (r, w') \<Longrightarrow>
     reset_times w' = reset_times w \<and> clock w \<le> clock w' \<and> set (logged w) \<subseteq> set (logged w')
     \<and> ((\<exists>e. r = Inl e) \<and> scan_history w' = scan_history w
        \<or> (\<exists>x. r = Inr x) \<and> scan_history w' = scan_history w @
             [\<lparr>sh_nation_id = E, sh_espionage_available = f, sh_scanned_at = clock w'\<rparr>])"
  by (auto simp: db_query_def Let_def logger_def split: if_splits)

lemma upsert_reset_set:
  "rt_nation_id ` set (upsert_reset nid tod at rs) = insert nid (rt_nation_id ` set rs)"
  by (induction rs) auto

lemma recordResetTime_effect:
  "scan_history (recordResetTime ev E w) = scan_history w
   \<and> clock w \<le> clock (recordResetTime ev E w)
   \<and> set (logged w) \<subseteq> set (logged (recordResetTime ev E w))
   \<and> ((\<forall>E'. has_reset E' (recordResetTime ev E w) = (E' = E \<or> has_reset E' w))
      \<or> reset_times (recordResetTime ev E w) = reset_times w
        \<and> reset_write_failed E (recordResetTime ev E w))"
proof (cases "db_fails ev (queries w) \<or> E \<notin> set (map n_id (nations w))")
  case True
  then show ?thesis
    by (auto simp: recordResetTime_def db_query_def Let_def logger_def reset_write_failed_def)
next
  case False
  then show ?thesis
    by (simp add: recordResetTime_def db_query_def Let_def logger_def has_reset_def
        upsert_reset_set) blast
qed

lemma insert_step:
  assumes o: "ordered w"
    and h: "scan_history w2 = scan_history w @
             [\<lparr>sh_nation_id = E, sh_espionage_available = f, sh_scanned_at = clock w2\<rparr>]"
    and c: "clock w \<le> clock w2"
  shows "ordered w2"
    and "scan_seq E' w2 = (if E' = E then scan_seq E w @ [f] else scan_seq E' w)"
proof -
  from o c have b: "\<forall>r\<in>set (scan_history w). sh_scanned_at r \<le> clock w2"
    unfolding ordered_def by force
  with o h show o2: "ordered w2"
    unfolding ordered_def by (simp add: sorted_append)
  show "scan_seq E' w2 = (if E' = E then scan_seq E w @ [f] else scan_seq E' w)"
    by (simp add: scan_seq_ordered [OF o2] scan_seq_ordered [OF o] h)
qed

lemma no_detect_step:
  assumes inv1: "detect_inv w1" and o2: "ordered w2"
    and seq2: "\<And>E'. scan_seq E' w2 = (if E' = E then scan_seq E w1 @ [f] else scan_seq E' w1)"
    and r2: "reset_times w2 = reset_times w1"
    and l2: "set (logged w1) \<subseteq> set (logged w2)"
    and nd: "\<not> (scan_seq E w1 \<noteq> [] \<and> \<not> last (scan_seq E w1) \<and> f)"
  shows "detect_inv w2"
  unfolding detect_inv_def
proof (intro conjI allI impI)
  show "ordered w2" by (rule o2)
next
  fix E' assume "has_reset E' w2"
  with r2 have "has_reset E' w1" by (simp add: has_reset_def)
  with inv1 have "has_transition (scan_seq E' w1)" by (simp add: detect_inv_def)
  then show "has_transition (scan_seq E' w2)"
    by (cases "E' = E") (simp_all add: seq2 has_transition_snoc)
next
  fix E' assume ht: "has_transition (scan_seq E' w2)"
  have "has_transition (scan_seq E' w1)"
  proof (cases "E' = E")
    case True
    with ht have "has_transition (scan_seq E w1 @ [f])" by (simp add: seq2)
    with nd True show ?thesis by (simp only: has_transition_snoc) blast
  next
    case False
    with ht show ?thesis by (simp add: seq2)
  qed
  with inv1 have "has_reset E' w1 \<or> reset_write_failed E' w1"
    by (simp add: detect_inv_def)
  moreover have "has_reset E' w1 \<Longrightarrow> has_reset E' w2" using r2 by (simp add: has_reset_def)
  moreover have "reset_write_failed E' w1 \<Longrightarrow> reset_write_failed E' w2"
    using l2 unfolding reset_write_failed_def by blast
  ultimately show "has_reset E' w2 \<or> reset_write_failed E' w2" by blast
qed

lemma detect_step:
  assumes inv1: "detect_inv w1" and o2: "ordered w2"
    and seq2: "\<And>E'. scan_seq E' w2 = (if E' = E then scan_seq E w1 @ [f] else scan_seq E' w1)"
    and r2: "reset_times w2 = reset_times w1"
    and l2: "set (logged w1) \<subseteq> set (logged w2)"
    and d: "scan_seq E w1 \<noteq> [] \<and> \<not> last (scan_seq E w1) \<and> f"
  shows "detect_inv (recordResetTime ev E w2)"
proof -
  let ?w3 = "recordResetTime ev E w2"
  note e = recordResetTime_effect [of ev E w2]
  from e have e1: "scan_history ?w3 = scan_history w2" by (rule conjunct1)
  from e have e2: "clock w2 \<le> clock ?w3" by blast
  from e have e3: "set (logged w2) \<subseteq> set (logged ?w3)" by blast
  from e have e4: "(\<forall>E'. has_reset E' ?w3 = (E' = E \<or> has_reset E' w2))
      \<or> reset_times ?w3 = reset_times w2 \<and> reset_write_failed E ?w3" by blast
  from d have tr: "has_transition (scan_seq E w2)"
    by (simp add: seq2 has_transition_snoc)
  have o3: "ordered ?w3"
    using o2 e1 e2 unfolding ordered_def by force
  have seq3: "\<And>E'. scan_seq E' ?w3 = scan_seq E' w2"
    using e1 by (simp add: scan_seq_def)
  have old: "\<And>E'. E' \<noteq> E \<Longrightarrow> scan_seq E' w2 = scan_seq E' w1"
    by (simp add: seq2)
  have hr3: "\<And>E'. E' \<noteq> E \<Longrightarrow> has_reset E' ?w3 = has_reset E' w1"
  proof -
    fix E' assume ne: "E' \<noteq> E"
    from e4 show "has_reset E' ?w3 = has_reset E' w1"
    proof
      assume "\<forall>E'. has_reset E' ?w3 = (E' = E \<or> has_reset E' w2)"
      with ne have "has_reset E' ?w3 = has_reset E' w2" by simp
      with r2 show ?thesis by (simp add: has_reset_def)
    next
      assume "reset_times ?w3 = reset_times w2 \<and> reset_write_failed E ?w3"
      with r2 show ?thesis by (simp add: has_reset_def)
    qed
  qed
  have f3: "\<And>E'. reset_write_failed E' w1 \<Longrightarrow> reset_write_failed E' ?w3"
    using l2 e3 unfolding reset_write_failed_def by blast
  have own: "has_reset E ?w3 \<or> reset_write_failed E ?w3"
    using e4 by blast
  show ?thesis
    unfolding detect_inv_def
  proof (intro conjI allI impI)
    show "ordered ?w3" by (rule o3)
  next
    fix E' assume hr: "has_reset E' ?w3"
    show "has_transition (scan_seq E' ?w3)"
    proof (cases "E' = E")
      case True
      with tr show ?thesis by (simp add: seq3)
    next
      case False
      with hr have "has_reset E' w1" by (simp add: hr3)
      with inv1 have "has_transition (scan_seq E' w1)" by (simp add: detect_inv_def)
      with False show ?thesis by (simp add: seq3 old)
    qed
  next
    fix E' assume ht: "has_transition (scan_seq E' ?w3)"
    show "has_reset E' ?w3 \<or> reset_write_failed E' ?w3"
    proof (cases "E' = E")
      case True
      with own show ?thesis by simp
    next
      case False
      with ht have "has_transition (scan_seq E' w1)" by (simp add: seq3 old)
      with inv1 have "has_reset E' w1 \<or> reset_write_failed E' w1"
        by (simp add: detect_inv_def)
      with False f3 show ?thesis by (auto simp: hr3)
    qed
  qed
qed

lemma db_query_selectD:
  assumes "db_query ev (SelectLastScan E) w = (r, w')"
  shows "scan_history w' = scan_history w" "reset_times w' = reset_times w" "clock w \<le> clock w'"
     "set (logged w) \<subseteq> set (logged w')" "r = Inr rows \<Longrightarrow> rows = last_scan E (scan_history w)"
  using db_query_select [OF assms] by blast+

lemma db_query_updateD:
  assumes "db_query ev (UpdateNation la E) w = (r, w')"
  shows "scan_history w' = scan_history w" "reset_times w' = reset_times w" "clock w \<le> clock w'"
     "set (logged w) \<subseteq> set (logged w')"
  using db_query_update [OF assms] by blast+

lemma process_nation_inv:
  assumes inv: "detect_inv w"
  shows "detect_inv (snd (process_nation ev n w))"
proof -
  let ?E = "a_id n" and ?f = "a_espionage_available n"
  obtain r1 w1 where q1: "db_query ev (SelectLastScan ?E) w = (r1, w1)"
    by (cases "db_query ev (SelectLastScan ?E) w") blast
  note s1 = db_query_selectD [OF q1]
  have inv1: "detect_inv w1" by (rule detect_inv_frame [OF inv s1(1-4)])
  show ?thesis
  proof (cases r1)
    case (Inl e)
    with q1 inv1 show ?thesis by (simp add: process_nation_def)
  next
    case lastScan: (Inr lastScan)
    with s1 have ls: "lastScan = last_scan ?E (scan_history w1)" by simp
    obtain r2 w2 where q2: "db_query ev (InsertScan ?E ?f) w1 = (r2, w2)"
      by (cases "db_query ev (InsertScan ?E ?f) w1") blast
    note s2 = db_query_insert [OF q2]
    from s2 have rt2: "reset_times w2 = reset_times w1" by (rule conjunct1)
    from s2 have c2: "clock w1 \<le> clock w2" by blast
    from s2 have l2: "set (logged w1) \<subseteq> set (logged w2)" by blast
    show ?thesis
    proof (cases r2)
      case (Inl e)
      with s2 have "scan_history w2 = scan_history w1" by blast
      from detect_inv_frame [OF inv1 this rt2 c2 l2] have "detect_inv w2" .
      with q1 q2 lastScan Inl show ?thesis by (simp add: process_nation_def)
    next
      case (Inr x)
      with s2 have h2: "scan_history w2 = scan_history w1 @
          [\<lparr>sh_nation_id = ?E, sh_espionage_available = ?f, sh_scanned_at = clock w2\<rparr>]"
        by blast
      from inv1 have o1: "ordered w1" by (simp add: detect_inv_def)
      note o2 = insert_step(1) [OF o1 h2 c2]
      note seq2 = insert_step(2) [OF o1 h2 c2]
      define detect where "detect = (length lastScan > 0 \<and> \<not> row_flag (hd lastScan) \<and> ?f)"
      have d: "detect = (scan_seq ?E w1 \<noteq> [] \<and> \<not> last (scan_seq ?E w1) \<and> ?f)"
        unfolding detect_def ls using last_scan_ordered [OF o1, of ?E] by blast
      define w3 where "w3 = (if detect then recordResetTime ev ?E w2 else w2)"
      have inv3: "detect_inv w3"
      proof (cases detect)
        case True
        with d have "scan_seq ?E w1 \<noteq> [] \<and> \<not> last (scan_seq ?E w1) \<and> ?f" by blast
        from detect_step [OF inv1 o2 seq2 rt2 l2 this] True show ?thesis by (simp add: w3_def)
      next
        case False
        with d have "\<not> (scan_seq ?E w1 \<noteq> [] \<and> \<not> last (scan_seq ?E w1) \<and> ?f)" by blast
        from no_detect_step [OF inv1 o2 seq2 rt2 l2 this] False show ?thesis by (simp add: w3_def)
      qed
      obtain r4 w4 where q4: "db_query ev (UpdateNation (a_last_active n) ?E) w3 = (r4, w4)"
        by (cases "db_query ev (UpdateNation (a_last_active n) ?E) w3") blast
      note s4 = db_query_updateD [OF q4]
      have inv4: "detect_inv w4" by (rule detect_inv_frame [OF inv3 s4])
      have "process_nation ev n w =
          (case db_query ev (UpdateNation (a_last_active n) ?E) w3 of
                   (Inl e, w4) \<Rightarrow> (Inl e, w4)
                 | (Inr _, w4) \<Rightarrow> (Inr (), w4))"
        by (simp add: process_nation_def Let_def q1 lastScan q2 Inr w3_def detect_def)
      then have "snd (process_nation ev n w) = w4"
        unfolding q4 by (cases r4) simp_all
      with inv4 show ?thesis by simp
    qed
  qed
qed

lemma processResults_inv: "detect_inv w \<Longrightarrow> detect_inv (processResults ev batch w)"
proof (induction batch arbitrary: w)
  case Nil
  then show ?case by simp
next
  case (Cons n rest)
  obtain r w1 where p: "process_nation ev n w = (r, w1)"
    by (cases "process_nation ev n w") blast
  with process_nation_inv [OF Cons.prems, of ev n] have i1: "detect_inv w1" by simp
  show ?case
  proof (cases r)
    case (Inl e)
    have "detect_inv (logger (FailedToProcessNation (a_id n) e) w1)"
      by (rule detect_inv_frame [OF i1]) (auto simp: logger_def)
    with p Inl Cons.IH show ?thesis by simp
  next
    case (Inr u)
    with p i1 Cons.IH show ?thesis by simp
  qed
qed

lemma run_cycles_inv: "detect_inv w \<Longrightarrow> detect_inv (run_cycles ev batches w)"
  by (induction batches arbitrary: w) (simp_all add: processResults_inv)

lemma fresh_world_inv: "detect_inv (fresh_world nats t0)"
  by (simp add: detect_inv_def ordered_def scan_seq_def has_reset_def fresh_world_def)

lemma first_observation_no_reset:
  assumes "scan_seq (a_id n) w = []"
  shows "reset_times (processResults ev [n] w) = reset_times w"
proof -
  from assms have "filter (\<lambda>r. sh_nation_id r = a_id n) (scan_history w) = []"
    unfolding scan_seq_def by (metis length_0_conv length_map length_sort)
  then have "last_scan (a_id n) (scan_history w) = []"
    by (simp add: last_scan_def)
  then show ?thesis
    by (simp add: process_nation_def db_query_def Let_def logger_def)
qed

text \<open>
  Claim C1, as the code has it. In every state that cycles of \<open>processResults\<close> reach from a
  store without scans and resets, whatever statements fail: a nation with a ResetRecord has
  two timestamp-adjacent observations \<open>false\<close> then \<open>true\<close>; a nation with such a pair has a
  ResetRecord unless a write of its ResetRecord failed (which \<open>recordResetTime\<close> logged). And
  processing a nation that has no ScanRecord yet creates no ResetRecord for it.
\<close>

theorem reset_record_iff_transition:
  "(has_reset E (run_cycles ev batches (fresh_world nats t0))
      \<longrightarrow> has_transition (scan_seq E (run_cycles ev batches (fresh_world nats t0))))
   \<and> (has_transition (scan_seq E (run_cycles ev batches (fresh_world nats t0)))
      \<longrightarrow> has_reset E (run_cycles ev batches (fresh_world nats t0))
          \<or> reset_write_failed E (run_cycles ev batches (fresh_world nats t0)))
   \<and> (scan_seq (a_id n) w = [] \<and> \<not> has_reset (a_id n) w
      \<longrightarrow> \<not> has_reset (a_id n) (processResults ev [n] w))"
proof -
  have "detect_inv (run_cycles ev batches (fresh_world nats t0))"
    by (rule run_cycles_inv [OF fresh_world_inv])
  then show ?thesis
    unfolding detect_inv_def
    by (auto simp: has_reset_def first_observation_no_reset simp del: processResults.simps)
qed

text \<open>
  Claim C1 as stated fails: nation 555 is seen \<open>false\<close>, then \<open>true\<close>, and the upsert of its
  ResetRecord (the sixth statement of the run) fails. The pair is in the history and no
  ResetRecord exists.
\<close>

theorem reset_record_iff_transition_counterexample:
  "\<not> (has_reset 555 (run_cycles (ev_fail_at 5) [[seen 555 False 1], [seen 555 True 2]]
                      (fresh_world [nation555] 1000000))
      \<longleftrightarrow> has_transition (scan_seq 555
            (run_cycles (ev_fail_at 5) [[seen 555 False 1], [seen 555 True 2]]
                      (fresh_world [nation555] 1000000))))"
  by (simp add: run2_defs ex2_defs)

theorem reset_record_iff_transition_witness:
  "has_reset 555 (run_cycles ev_ok [[seen 555 False 1], [seen 555 True 2]]
                      (fresh_world [nation555] 1000000))
   \<and> has_transition (scan_seq 555 (run_cycles ev_ok [[seen 555 False 1], [seen 555 True 2]]
                      (fresh_world [nation555] 1000000)))
   \<and> scan_seq (a_id (seen 555 True 1)) w_start = [] \<and> \<not> has_reset (a_id (seen 555 True 1)) w_start
   \<and> \<not> has_reset (a_id (seen 555 True 1)) (processResults ev_ok [seen 555 True 1] w_start)"
proof -
  have a: "has_reset 555 (run_cycles ev_ok [[seen 555 False 1], [seen 555 True 2]]
                      (fresh_world [nation555] 1000000))"
    by (simp add: run2_defs ex2_defs)
  have b: "scan_seq (a_id (seen 555 True 1)) w_start = [] \<and> \<not> has_reset (a_id (seen 555 True 1)) w_start"
    by (simp add: scan_seq_def has_reset_def w_start_def)
  from a b reset_record_iff_transition [of 555 ev_ok "[[seen 555 False 1], [seen 555 True 2]]"
      "[nation555]" 1000000 "seen 555 True 1" w_start]
  show ?thesis by blast
qed

section \<open>The page cursor\<close>











































end
